theory Spec2Isabelle
  imports Complex_Main
begin

section \<open>The scale action handler \<^verbatim>\<open>actions/IA_scale.py\<close>\<close>

text \<open>
  The script reads one JSON document from standard input, checks that it is a SCALE
  action on a virtual machine, reads three tags, and then talks to the management API:
  authenticate, resolve the tenant, post the update, poll the status. The process exit
  status is what \<^verbatim>\<open>main\<close> returns, or 1 when \<^verbatim>\<open>main\<close> raises.

  The model is a shallow embedding: Python values that come out of \<^verbatim>\<open>json.load\<close>
  are a datatype, every exception the script can raise is a value, the log file, the
  sleeps and the HTTP traffic are events of a trace, and the remote side is a parameter.
\<close>

subsection \<open>Python values and the operations the script applies to them\<close>

text \<open>
  What \<^verbatim>\<open>json.load\<close> and \<^verbatim>\<open>response.json()\<close> return. \<open>JNull\<close> is Python's
  \<^verbatim>\<open>None\<close>. \<open>JNum\<close> stands for both \<^verbatim>\<open>int\<close> and \<^verbatim>\<open>float\<close>: the script never
  calculates with a number of the payload, it only compares values with strings and
  with \<^verbatim>\<open>None\<close>. \<open>JObj\<close> holds the members in document order; a key written twice
  keeps its last value, as the parser does.
\<close>

datatype json =
    JNull
  | JBool bool
  | JNum real
  | JStr string
  | JArr "json list"
  | JObj "(string \<times> json) list"

datatype py_error =
    KeyError
  | TypeError
  | AttributeError
  | IndexError
  | NameError
  | JSONDecodeError
  | RequestException

text \<open>Sequencing of steps that may raise.\<close>

definition seq :: "py_error + 'a \<Rightarrow> ('a \<Rightarrow> py_error + 'b) \<Rightarrow> py_error + 'b" where
  "seq r f = (case r of Inl e \<Rightarrow> Inl e | Inr x \<Rightarrow> f x)"

text \<open>\<^verbatim>\<open>d[k]\<close> for a string key: only a dict can be subscripted with a string.\<close>

fun subscript :: "json \<Rightarrow> string \<Rightarrow> py_error + json" where
  "subscript (JObj kvs) k = (case map_of (rev kvs) k of None \<Rightarrow> Inl KeyError | Some v \<Rightarrow> Inr v)"
| "subscript JNull k = Inl TypeError"
| "subscript (JBool b) k = Inl TypeError"
| "subscript (JNum n) k = Inl TypeError"
| "subscript (JStr s) k = Inl TypeError"
| "subscript (JArr xs) k = Inl TypeError"

text \<open>\<^verbatim>\<open>d.get(k, default)\<close>: only a dict has the method.\<close>

fun py_get :: "json \<Rightarrow> string \<Rightarrow> json \<Rightarrow> py_error + json" where
  "py_get (JObj kvs) k d = Inr (case map_of (rev kvs) k of None \<Rightarrow> d | Some v \<Rightarrow> v)"
| "py_get JNull k d = Inl AttributeError"
| "py_get (JBool b) k d = Inl AttributeError"
| "py_get (JNum n) k d = Inl AttributeError"
| "py_get (JStr s) k d = Inl AttributeError"
| "py_get (JArr xs) k d = Inl AttributeError"

text \<open>
  The values a \<^verbatim>\<open>for\<close> loop runs over: the elements of a list, the keys of a dict
  (in order of first appearance), the one-character strings of a string. Nothing else
  of a JSON document is iterable.
\<close>

fun py_iter :: "json \<Rightarrow> py_error + json list" where
  "py_iter (JArr xs) = Inr xs"
| "py_iter (JObj kvs) = Inr (map JStr (rev (remdups (rev (map fst kvs)))))"
| "py_iter (JStr s) = Inr (map (\<lambda>c. JStr [c]) s)"
| "py_iter JNull = Inl TypeError"
| "py_iter (JBool b) = Inl TypeError"
| "py_iter (JNum n) = Inl TypeError"

text \<open>\<^verbatim>\<open>'literal' + v\<close>: concatenation raises unless \<open>v\<close> is a string.\<close>

fun str_add :: "string \<Rightarrow> json \<Rightarrow> py_error + string" where
  "str_add a (JStr s) = Inr (a @ s)"
| "str_add a JNull = Inl TypeError"
| "str_add a (JBool b) = Inl TypeError"
| "str_add a (JNum n) = Inl TypeError"
| "str_add a (JArr xs) = Inl TypeError"
| "str_add a (JObj kvs) = Inl TypeError"

text \<open>
  \<^verbatim>\<open>s.split('::')\<close>: the separator is looked for from the left, matches do not
  overlap, and the pieces between them are returned (so there is always at least one).
  The first argument collects the current piece, reversed.
\<close>

fun split_colons :: "string \<Rightarrow> string \<Rightarrow> string list" where
  "split_colons cur [] = [rev cur]"
| "split_colons cur [c] = [rev (c # cur)]"
| "split_colons cur (c # d # s) =
     (if c = CHR '':'' \<and> d = CHR '':'' then rev cur # split_colons [] s
      else split_colons (c # cur) (d # s))"

text \<open>\<^verbatim>\<open>v.split('::')[2]\<close>: only a string has the method, and the index may be out of range.\<close>

fun third_segment :: "json \<Rightarrow> py_error + string" where
  "third_segment (JStr s) =
     (let parts = split_colons [] s in if 2 < length parts then Inr (parts ! 2) else Inl IndexError)"
| "third_segment JNull = Inl AttributeError"
| "third_segment (JBool b) = Inl AttributeError"
| "third_segment (JNum n) = Inl AttributeError"
| "third_segment (JArr xs) = Inl AttributeError"
| "third_segment (JObj kvs) = Inl AttributeError"

text \<open>A dict key must be hashable: a list or a dict as key raises.\<close>

fun hashable :: "json \<Rightarrow> bool" where
  "hashable (JArr xs) = False"
| "hashable (JObj kvs) = False"
| "hashable JNull = True"
| "hashable (JBool b) = True"
| "hashable (JNum n) = True"
| "hashable (JStr s) = True"

subsection \<open>Settings, requests, responses, and the trace of a run\<close>

text \<open>The values read from \<^verbatim>\<open>settings.ini\<close> when the module is loaded (lines 49-55).\<close>

record config =
  auth_url :: string
  cam_url :: string
  user :: string
  password :: string
  update_service_timeout :: int

text \<open>
  One constructor for each of the four places that call \<^verbatim>\<open>requests\<close>:
  the URL, then the form data, or the \<^verbatim>\<open>Authorization\<close> header, and for the update
  the one entry \<^verbatim>\<open>{instance_type_parameter: new_instance_type}\<close> of the body
  \<^verbatim>\<open>{'update_details': {'instance_parameters': {...}}}\<close>.
\<close>

datatype request =
    Identity_Token_Post string "(string \<times> string) list"
  | Tenant_Get string string
  | Update_Post string string json string
  | Details_Get string string

text \<open>
  A response: its status code, what \<^verbatim>\<open>response.json()\<close> gives (\<open>None\<close> when the
  body is not JSON and the call raises), and \<^verbatim>\<open>response.text\<close>.
\<close>

record http_response =
  status_code :: int
  json_body :: "json option"
  body_text :: string

datatype level = ERROR | INFO

text \<open>One constructor for each logging call of the script, with its arguments.\<close>

datatype log_msg =
    Action_Type_Not_Supported json
  | No_Scale_Action_Item
  | Scaling_Not_Supported string
  | No_Service_Instance_Id
  | Error_Authenticating int string
  | Error_Getting_Tenant int
  | Update_Service_Instance json json string
  | Error_Updating int json
  | Error_Getting_Details int json
  | Response_Text string
  | Update_In_Progress
  | Still_In_Progress int
  | Updated_Successfully json json
  | Not_Updated_Successfully json json

datatype event =
    Log level log_msg
  | Sleep int
  | Request request "py_error + http_response"

text \<open>
  The remote side: what the \<open>n\<close>-th request of the run (counted from 0) is answered
  with, a response or an exception of the \<^verbatim>\<open>requests\<close> library.
\<close>

type_synonym network = "nat \<Rightarrow> request \<Rightarrow> py_error + http_response"

fun is_request :: "event \<Rightarrow> bool" where
  "is_request (Request rq r) = True"
| "is_request (Log l m) = False"
| "is_request (Sleep n) = False"

text \<open>A step of the script: it extends the trace and returns a value or raises.\<close>

type_synonym 'a prog = "event list \<Rightarrow> (py_error + 'a) \<times> event list"

definition ret :: "'a \<Rightarrow> 'a prog" where
  "ret x = (\<lambda>tr. (Inr x, tr))"

definition raise :: "py_error \<Rightarrow> 'a prog" where
  "raise e = (\<lambda>tr. (Inl e, tr))"

definition and_then :: "'a prog \<Rightarrow> ('a \<Rightarrow> 'b prog) \<Rightarrow> 'b prog" where
  "and_then m f = (\<lambda>tr. case m tr of (Inl e, tr') \<Rightarrow> (Inl e, tr') | (Inr x, tr') \<Rightarrow> f x tr')"

definition lift :: "py_error + 'a \<Rightarrow> 'a prog" where
  "lift r = (case r of Inl e \<Rightarrow> raise e | Inr x \<Rightarrow> ret x)"

definition emit :: "event \<Rightarrow> unit prog" where
  "emit e = (\<lambda>tr. (Inr (), tr @ [e]))"

definition http :: "network \<Rightarrow> request \<Rightarrow> http_response prog" where
  "http net rq = (\<lambda>tr. let r = net (length (filter is_request tr)) rq in (r, tr @ [Request rq r]))"

text \<open>\<^verbatim>\<open>response.json()\<close>\<close>

definition response_json :: "http_response \<Rightarrow> py_error + json" where
  "response_json response = (case json_body response of None \<Rightarrow> Inl JSONDecodeError | Some j \<Rightarrow> Inr j)"

subsection \<open>The four calls of the management API\<close>

definition IN_PROGRESS :: string where
  "IN_PROGRESS = ''In Progress''"

definition ACTIVE :: string where
  "ACTIVE = ''Active''"

text \<open>Lines 57-70. \<open>JNull\<close> is the \<^verbatim>\<open>None\<close> the function starts with.\<close>

definition get_access_token :: "config \<Rightarrow> network \<Rightarrow> json prog" where
  "get_access_token cfg net =
     and_then (http net (Identity_Token_Post (auth_url cfg @ ''/v1/auth/identitytoken'')
        [(''grant_type'', ''password''), (''username'', user cfg),
         (''password'', password cfg), (''scope'', ''openid'')])) (\<lambda>response.
     if status_code response = 200 then
       lift (seq (response_json response) (\<lambda>j. subscript j ''access_token''))
     else
       and_then (emit (Log ERROR (Error_Authenticating (status_code response) (user cfg)))) (\<lambda>_.
       ret JNull))"

text \<open>Lines 73-91.\<close>

definition get_tenant_id :: "config \<Rightarrow> network \<Rightarrow> json \<Rightarrow> json prog" where
  "get_tenant_id cfg net access_token =
     (if access_token \<noteq> JNull then
        and_then (lift (str_add ''Bearer '' access_token)) (\<lambda>authorization.
        and_then (http net (Tenant_Get (cam_url cfg @ ''/cam/tenant/api/v1/tenants/getTenantOnPrem'')
           authorization)) (\<lambda>response.
        if status_code response = 200 then
          lift (seq (response_json response) (\<lambda>j. subscript j ''id''))
        else
          and_then (emit (Log ERROR (Error_Getting_Tenant (status_code response)))) (\<lambda>_.
          ret JNull)))
      else ret JNull)"

text \<open>
  Lines 93-113. The body is built first (its key must be hashable), then the header,
  then the URL, whose concatenation raises unless both identifiers are strings.
\<close>

definition update_url :: "config \<Rightarrow> json \<Rightarrow> json \<Rightarrow> py_error + string" where
  "update_url cfg service_instance_id tenant_id =
     seq (str_add (cam_url cfg @ ''/cam/composer/api/v1/ServiceInstances/'') service_instance_id) (\<lambda>u.
     seq (str_add (u @ ''/update?tenantId='') tenant_id) (\<lambda>u.
     Inr (u @ ''&ace_orgGuid=all'')))"

definition update_service_instance ::
  "config \<Rightarrow> network \<Rightarrow> json \<Rightarrow> json \<Rightarrow> json \<Rightarrow> json \<Rightarrow> string \<Rightarrow> int prog" where
  "update_service_instance cfg net access_token tenant_id service_instance_id
       instance_type_parameter new_instance_type =
     (if \<not> hashable instance_type_parameter then raise TypeError
      else
        and_then (lift (str_add ''Bearer '' access_token)) (\<lambda>authorization.
        and_then (lift (update_url cfg service_instance_id tenant_id)) (\<lambda>url.
        and_then (http net (Update_Post url authorization instance_type_parameter new_instance_type))
          (\<lambda>response.
        and_then
          (if status_code response \<noteq> 200 then
             and_then (emit (Log ERROR (Error_Updating (status_code response) service_instance_id))) (\<lambda>_.
             emit (Log ERROR (Response_Text (body_text response))))
           else ret ()) (\<lambda>_.
        ret (status_code response))))))"

text \<open>Lines 115-137.\<close>

definition details_url :: "config \<Rightarrow> json \<Rightarrow> json \<Rightarrow> py_error + string" where
  "details_url cfg service_instance_id tenant_id =
     seq (str_add (cam_url cfg @ ''/cam/composer/api/v1/ServiceInstances/'') service_instance_id) (\<lambda>u.
     seq (str_add (u @ ''?tenantId='') tenant_id) (\<lambda>u.
     Inr (u @ ''&ace_orgGuid=all'')))"

definition get_service_instance_details :: "config \<Rightarrow> network \<Rightarrow> json \<Rightarrow> json \<Rightarrow> json \<Rightarrow> json prog" where
  "get_service_instance_details cfg net access_token tenant_id service_instance_id =
     (if access_token \<noteq> JNull \<and> tenant_id \<noteq> JNull then
        and_then (lift (str_add ''Bearer '' access_token)) (\<lambda>authorization.
        and_then (lift (details_url cfg service_instance_id tenant_id)) (\<lambda>url.
        and_then (http net (Details_Get url authorization)) (\<lambda>response.
        if status_code response = 200 then lift (response_json response)
        else
          and_then (emit (Log ERROR (Error_Getting_Details (status_code response) service_instance_id))) (\<lambda>_.
          and_then (emit (Log ERROR (Response_Text (body_text response)))) (\<lambda>_.
          ret JNull)))))
      else ret JNull)"

text \<open>Lines 139-155.\<close>

definition get_service_instance_status :: "config \<Rightarrow> network \<Rightarrow> json \<Rightarrow> json \<Rightarrow> json \<Rightarrow> json prog" where
  "get_service_instance_status cfg net access_token tenant_id service_instance_id =
     and_then (get_service_instance_details cfg net access_token tenant_id service_instance_id)
       (\<lambda>service_instance_details.
     if service_instance_details \<noteq> JNull then lift (subscript service_instance_details ''Status'')
     else ret JNull)"

subsection \<open>\<^verbatim>\<open>main\<close>\<close>

text \<open>
  Lines 171-174: the first action item whose \<^verbatim>\<open>actionType\<close> is \<^verbatim>\<open>'SCALE'\<close>;
  \<open>None\<close> when the loop ends without \<^verbatim>\<open>break\<close>.
\<close>

fun find_scale_action :: "json list \<Rightarrow> py_error + json option" where
  "find_scale_action [] = Inr None"
| "find_scale_action (action_item # rest) =
     (case subscript action_item ''actionType'' of
        Inl e \<Rightarrow> Inl e
      | Inr t \<Rightarrow> if t = JStr ''SCALE'' then Inr (Some action_item) else find_scale_action rest)"

text \<open>
  The condition \<^verbatim>\<open>entity_property['namespace'] == 'VCTAGS' and entity_property['name'] == n\<close>:
  the name is only read when the namespace matches.
\<close>

definition is_tag :: "json \<Rightarrow> string \<Rightarrow> py_error + bool" where
  "is_tag entity_property n =
     seq (subscript entity_property ''namespace'') (\<lambda>ns.
     if ns = JStr ''VCTAGS'' then seq (subscript entity_property ''name'') (\<lambda>nm. Inr (nm = JStr n))
     else Inr False)"

text \<open>
  The three variables the scan fills, in the order
  \<^verbatim>\<open>instance_type_parameter\<close>, \<^verbatim>\<open>service_instance_id\<close>, \<^verbatim>\<open>service_instance_name\<close>.
\<close>

type_synonym tags = "json \<times> json \<times> json"

text \<open>Lines 192-199: the three \<^verbatim>\<open>if\<close> statements of the loop body.\<close>

definition read_tags :: "json \<Rightarrow> tags \<Rightarrow> py_error + tags" where
  "read_tags entity_property t =
     (case t of (instance_type_parameter, service_instance_id, service_instance_name) \<Rightarrow>
        seq (is_tag entity_property ''service_identifier'') (\<lambda>b.
        seq (if b then subscript entity_property ''value'' else Inr service_instance_id)
          (\<lambda>service_instance_id.
        seq (is_tag entity_property ''service_name'') (\<lambda>b.
        seq (if b then subscript entity_property ''value'' else Inr service_instance_name)
          (\<lambda>service_instance_name.
        seq (is_tag entity_property ''turbonomic_instance_type'') (\<lambda>b.
        seq (if b then subscript entity_property ''value'' else Inr instance_type_parameter)
          (\<lambda>instance_type_parameter.
        Inr (instance_type_parameter, service_instance_id, service_instance_name))))))))"

text \<open>Lines 190-202: the loop, which stops as soon as all three variables are set.\<close>

fun scan_entity_properties :: "json list \<Rightarrow> tags \<Rightarrow> py_error + tags" where
  "scan_entity_properties [] t = Inr t"
| "scan_entity_properties (entity_property # rest) t =
     (case read_tags entity_property t of
        Inl e \<Rightarrow> Inl e
      | Inr (instance_type_parameter, service_instance_id, service_instance_name) \<Rightarrow>
          if instance_type_parameter \<noteq> JNull \<and> service_instance_id \<noteq> JNull
             \<and> service_instance_name \<noteq> JNull
          then Inr (instance_type_parameter, service_instance_id, service_instance_name)
          else scan_entity_properties rest
                 (instance_type_parameter, service_instance_id, service_instance_name))"

text \<open>
  Lines 162-214, up to the first network call: the checks of the payload. The result is
  \<open>Inl 1\<close> where \<^verbatim>\<open>main\<close> returns 1, and otherwise the tags and the new instance type.
\<close>

definition read_scale_action :: "json \<Rightarrow> (int + tags \<times> string) prog" where
  "read_scale_action inp =
     and_then (lift (subscript inp ''actionType'')) (\<lambda>action_type.
     if action_type \<noteq> JStr ''SCALE'' then
       and_then (emit (Log ERROR (Action_Type_Not_Supported action_type))) (\<lambda>_. ret (Inl 1))
     else
       and_then (lift (seq (subscript inp ''actionItem'') py_iter)) (\<lambda>action_items.
       and_then (lift (find_scale_action action_items)) (\<lambda>found.
       case found of
         None \<Rightarrow> and_then (emit (Log ERROR No_Scale_Action_Item)) (\<lambda>_. ret (Inl 1))
       | Some scale_action \<Rightarrow>
           and_then (lift (seq (py_get scale_action ''targetSE'' (JObj []))
                               (\<lambda>se. py_get se ''entityType'' JNull))) (\<lambda>target_se.
           if target_se \<noteq> JStr ''VIRTUAL_MACHINE'' then
             and_then (lift (str_add ''Scaling '' target_se)) (\<lambda>m.
             and_then (emit (Log ERROR (Scaling_Not_Supported (m @ '' is not supported'')))) (\<lambda>_.
             ret (Inl 1)))
           else
             and_then (lift (seq (seq (subscript scale_action ''targetSE'')
                                      (\<lambda>se. subscript se ''entityProperties'')) py_iter))
               (\<lambda>entity_properties.
             and_then (lift (scan_entity_properties entity_properties (JNull, JNull, JNull)))
               (\<lambda>(instance_type_parameter, service_instance_id, service_instance_name).
             if service_instance_id = JNull then
               and_then (emit (Log ERROR No_Service_Instance_Id)) (\<lambda>_. ret (Inl 1))
             else
               and_then (lift (seq (seq (subscript scale_action ''newSE'') (\<lambda>se. subscript se ''id''))
                                   third_segment)) (\<lambda>new_instance_type.
               ret (Inr (((if instance_type_parameter = JNull then JStr ''instance_type''
                           else instance_type_parameter),
                          service_instance_id, service_instance_name), new_instance_type)))))))))"

text \<open>
  Lines 235-239: the wait loop. Every round logs, sleeps 10 seconds, adds 10 to
  \<^verbatim>\<open>time_waited\<close> and reads the status again.
\<close>

function poll :: "config \<Rightarrow> network \<Rightarrow> json \<Rightarrow> json \<Rightarrow> json \<Rightarrow> json \<Rightarrow> int \<Rightarrow> json prog" where
  "poll cfg net access_token tenant_id service_instance_id service_instance_status time_waited tr =
     (if service_instance_status = JStr IN_PROGRESS \<and> time_waited \<le> update_service_timeout cfg then
        (case and_then (emit (Log INFO Update_In_Progress)) (\<lambda>_.
              and_then (emit (Sleep 10)) (\<lambda>_.
              get_service_instance_status cfg net access_token tenant_id service_instance_id)) tr of
           (Inl e, tr') \<Rightarrow> (Inl e, tr')
         | (Inr status, tr') \<Rightarrow>
             poll cfg net access_token tenant_id service_instance_id status (time_waited + 10) tr')
      else (Inr service_instance_status, tr))"
  by pat_completeness auto
termination
  by (relation "measure (\<lambda>(cfg, net, a, t, s, st, time_waited, tr).
                  nat (update_service_timeout cfg + 10 - time_waited))") auto

text \<open>
  Lines 230-247, the branch taken when the update was accepted: read the status, sleep
  30 seconds, wait, and turn the last status into the exit status. Line 242 reads the
  name \<^verbatim>\<open>timeout\<close>, which the module nowhere binds: evaluating the arguments of
  that logging call raises \<^verbatim>\<open>NameError\<close>, before anything is logged.
\<close>

definition wait_for_update :: "config \<Rightarrow> network \<Rightarrow> json \<Rightarrow> json \<Rightarrow> json \<Rightarrow> json \<Rightarrow> int prog" where
  "wait_for_update cfg net access_token tenant_id service_instance_id service_instance_name =
     and_then (get_service_instance_status cfg net access_token tenant_id service_instance_id)
       (\<lambda>service_instance_status.
     and_then (emit (Sleep 30)) (\<lambda>_.
     and_then (poll cfg net access_token tenant_id service_instance_id
                 service_instance_status 30) (\<lambda>service_instance_status.
     if service_instance_status = JStr IN_PROGRESS then raise NameError
     else if service_instance_status = JStr ACTIVE then
       and_then (emit (Log INFO (Updated_Successfully service_instance_name
                                   service_instance_id))) (\<lambda>_. ret 0)
     else
       and_then (emit (Log INFO (Not_Updated_Successfully service_instance_name
                                   service_instance_id))) (\<lambda>_. ret 1))))"

text \<open>Lines 216-251: authenticate, resolve the tenant, post the update, wait.\<close>

definition update_and_wait :: "config \<Rightarrow> network \<Rightarrow> tags \<Rightarrow> string \<Rightarrow> int prog" where
  "update_and_wait cfg net t new_instance_type =
     (case t of (instance_type_parameter, service_instance_id, service_instance_name) \<Rightarrow>
        and_then (get_access_token cfg net) (\<lambda>access_token.
        if access_token = JNull then ret 1
        else
          and_then (get_tenant_id cfg net access_token) (\<lambda>tenant_id.
          if tenant_id = JNull then ret 1
          else
            and_then (emit (Log INFO (Update_Service_Instance service_instance_name
                                        service_instance_id new_instance_type))) (\<lambda>_.
            and_then (update_service_instance cfg net access_token tenant_id service_instance_id
                        instance_type_parameter new_instance_type) (\<lambda>code.
            if code = 200 then
              wait_for_update cfg net access_token tenant_id service_instance_id
                service_instance_name
            else ret 1)))))"

text \<open>The whole of \<^verbatim>\<open>main\<close>, run on the parsed standard input, from the empty trace.\<close>

definition main :: "config \<Rightarrow> network \<Rightarrow> json \<Rightarrow> (py_error + int) \<times> event list" where
  "main cfg net inp =
     and_then (read_scale_action inp) (\<lambda>r.
       case r of
         Inl status \<Rightarrow> ret status
       | Inr (t, new_instance_type) \<Rightarrow> update_and_wait cfg net t new_instance_type) []"

text \<open>
  Line 254, \<^verbatim>\<open>sys.exit(main(sys.argv))\<close>: the exit status of the process is the value
  returned, and 1 when an exception leaves \<^verbatim>\<open>main\<close>.
\<close>

definition exit_status :: "(py_error + int) \<times> event list \<Rightarrow> int" where
  "exit_status run = (case fst run of Inl e \<Rightarrow> 1 | Inr status \<Rightarrow> status)"

subsection \<open>What is observed of a run\<close>

text \<open>The requests of a trace, by the function that sends them.\<close>

fun auth_call :: "event \<Rightarrow> bool" where
  "auth_call (Request (Identity_Token_Post u f) r) = True"
| "auth_call _ = False"

fun tenant_call :: "event \<Rightarrow> bool" where
  "tenant_call (Request (Tenant_Get u a) r) = True"
| "tenant_call _ = False"

fun update_call :: "event \<Rightarrow> bool" where
  "update_call (Request (Update_Post u a k v) r) = True"
| "update_call _ = False"

fun details_call :: "event \<Rightarrow> bool" where
  "details_call (Request (Details_Get u a) r) = True"
| "details_call _ = False"

fun is_sleep :: "event \<Rightarrow> bool" where
  "is_sleep (Sleep n) = True"
| "is_sleep _ = False"

text \<open>The parameter names of the update requests of a trace.\<close>

fun update_key :: "event \<Rightarrow> json list" where
  "update_key (Request (Update_Post u a k v) r) = [k]"
| "update_key _ = []"

definition update_keys :: "event list \<Rightarrow> json list" where
  "update_keys tr = concat (map update_key tr)"

text \<open>
  How often the body of the wait loop was entered: its first statement is the only
  place that logs the in-progress message.
\<close>

definition poll_rounds :: "event list \<Rightarrow> nat" where
  "poll_rounds tr = length (filter (\<lambda>e. e = Log INFO Update_In_Progress) tr)"

text \<open>The messages logged at level INFO, in order.\<close>

fun info_log :: "event \<Rightarrow> log_msg list" where
  "info_log (Log INFO m) = [m]"
| "info_log _ = []"

definition info_logs :: "event list \<Rightarrow> log_msg list" where
  "info_logs tr = concat (map info_log tr)"

text \<open>An entity property that is the tag \<open>n\<close> of the namespace \<^verbatim>\<open>VCTAGS\<close>.\<close>

definition has_tag :: "json \<Rightarrow> string \<Rightarrow> bool" where
  "has_tag entity_property n =
     (subscript entity_property ''namespace'' = Inr (JStr ''VCTAGS'')
      \<and> subscript entity_property ''name'' = Inr (JStr n))"

subsection \<open>Example runs\<close>

text \<open>The tags of a virtual machine, as entity properties of the namespace \<^verbatim>\<open>VCTAGS\<close>.\<close>

definition example_properties :: "(string \<times> json) list \<Rightarrow> json list" where
  "example_properties tgs =
     map (\<lambda>(n, v). JObj [(''namespace'', JStr ''VCTAGS''), (''name'', JStr n), (''value'', v)]) tgs"

definition example_target :: "(string \<times> json) list \<Rightarrow> json" where
  "example_target tgs =
     JObj [(''entityType'', JStr ''VIRTUAL_MACHINE''),
           (''entityProperties'', JArr (example_properties tgs))]"

text \<open>A SCALE item on a virtual machine with the given tags and new entity id.\<close>

definition example_item :: "(string \<times> json) list \<Rightarrow> string \<Rightarrow> json" where
  "example_item tgs new_id =
     JObj [(''actionType'', JStr ''SCALE''), (''targetSE'', example_target tgs),
           (''newSE'', JObj [(''id'', JStr new_id)])]"


definition example_payload :: "string \<Rightarrow> json list \<Rightarrow> json" where
  "example_payload action_type items =
     JObj [(''actionType'', JStr action_type), (''actionItem'', JArr items)]"

text \<open>The payload of most examples: one SCALE item that carries a service identifier.\<close>

definition example_input :: json where
  "example_input =
     example_payload ''SCALE''
       [example_item [(''service_identifier'', JStr ''sid1'')] ''a::b::m1.large'']"

definition example_settings :: "int \<Rightarrow> config" where
  "example_settings t =
     \<lparr>auth_url = ''https://auth'', cam_url = ''https://cam'', user = ''admin'',
      password = ''secret'', update_service_timeout = t\<rparr>"

definition response :: "int \<Rightarrow> json \<Rightarrow> http_response" where
  "response code j = \<lparr>status_code = code, json_body = Some j, body_text = []\<rparr>"

text \<open>
  A remote side that answers the authentication and the update with the given status
  codes, and every status request with the given status.
\<close>

definition example_server :: "int \<Rightarrow> int \<Rightarrow> json \<Rightarrow> network" where
  "example_server auth_code update_code st n rq =
     (case rq of
        Identity_Token_Post u f \<Rightarrow> Inr (response auth_code (JObj [(''access_token'', JStr ''tok'')]))
      | Tenant_Get u a \<Rightarrow> Inr (response 200 (JObj [(''id'', JStr ''ten'')]))
      | Update_Post u a k v \<Rightarrow> Inr (response update_code JNull)
      | Details_Get u a \<Rightarrow> Inr (response 200 (JObj [(''Status'', st)])))"

text \<open>The requests these runs send.\<close>

definition example_token_request :: request where
  "example_token_request =
     Identity_Token_Post ''https://auth/v1/auth/identitytoken''
       [(''grant_type'', ''password''), (''username'', ''admin''),
        (''password'', ''secret''), (''scope'', ''openid'')]"

definition example_update_request :: request where
  "example_update_request =
     Update_Post
       ''https://cam/cam/composer/api/v1/ServiceInstances/sid1/update?tenantId=ten&ace_orgGuid=all''
       ''Bearer tok'' (JStr ''instance_type'') ''m1.large''"

definition example_details_request :: request where
  "example_details_request =
     Details_Get ''https://cam/cam/composer/api/v1/ServiceInstances/sid1?tenantId=ten&ace_orgGuid=all''
       ''Bearer tok''"

section \<open>Properties\<close>

subsection \<open>The wait loop\<close>

declare poll.simps [simp del]

lemmas prog_defs = and_then_def ret_def raise_def lift_def emit_def seq_def http_def

lemma status_trace:
  assumes "get_service_instance_status cfg net a t s tr = (r, tr')"
  shows "tr' = tr \<or> (\<exists>u h x. tr' = tr @ [Request (Details_Get u h) x])
       \<or> (\<exists>u h x m1 m2. tr' = tr @ [Request (Details_Get u h) x, Log ERROR m1, Log ERROR m2])"
  using assms
  by (auto simp: get_service_instance_status_def get_service_instance_details_def prog_defs Let_def
           split: if_splits sum.splits prod.splits)

lemma poll_stop:
  assumes "\<not> (st = JStr IN_PROGRESS \<and> tw \<le> update_service_timeout cfg)"
  shows "poll cfg net a t s st tw tr = (Inr st, tr)"
  by (subst poll.simps) (simp only: assms if_False)

lemma poll_abort:
  assumes "st = JStr IN_PROGRESS" "tw \<le> update_service_timeout cfg"
    and "get_service_instance_status cfg net a t s (tr @ [Log INFO Update_In_Progress, Sleep 10])
           = (Inl e, tr1)"
  shows "poll cfg net a t s st tw tr = (Inl e, tr1)"
  by (subst poll.simps) (simp add: assms and_then_def emit_def)

lemma poll_step:
  assumes "st = JStr IN_PROGRESS" "tw \<le> update_service_timeout cfg"
    and "get_service_instance_status cfg net a t s (tr @ [Log INFO Update_In_Progress, Sleep 10])
           = (Inr st', tr1)"
  shows "poll cfg net a t s st tw tr = poll cfg net a t s st' (tw + 10) tr1"
  by (subst poll.simps) (simp add: assms and_then_def emit_def)

text \<open>The loop only logs, sleeps 10 seconds and asks for the details.\<close>

lemma poll_keeps:
  assumes "\<And>u h x. \<not> P (Request (Details_Get u h) x)" "\<And>l m. \<not> P (Log l m)" "\<not> P (Sleep 10)"
  shows "filter P (snd (poll cfg net a t s st tw tr)) = filter P tr"
proof (induction cfg net a t s st tw tr rule: poll.induct)
  case (1 cfg net a t s st tw tr)
  show ?case
  proof (cases "st = JStr IN_PROGRESS \<and> tw \<le> update_service_timeout cfg")
    case False
    then show ?thesis by (simp add: poll_stop)
  next
    case True
    obtain r tr1 where g:
      "get_service_instance_status cfg net a t s (tr @ [Log INFO Update_In_Progress, Sleep 10]) = (r, tr1)"
      by (cases "get_service_instance_status cfg net a t s (tr @ [Log INFO Update_In_Progress, Sleep 10])")
         auto
    have body: "and_then (emit (Log INFO Update_In_Progress)) (\<lambda>_. and_then (emit (Sleep 10))
        (\<lambda>_. get_service_instance_status cfg net a t s)) tr = (r, tr1)"
      using g by (simp add: and_then_def emit_def)
    have keep: "filter P tr1 = filter P tr"
      using status_trace [OF g] assms by auto
    show ?thesis
    proof (cases r)
      case (Inl e)
      then show ?thesis using True g keep by (simp add: poll_abort)
    next
      case (Inr st')
      have "filter P (snd (poll cfg net a t s st' (tw + 10) tr1)) = filter P tr1"
        using "1.IH" [OF True body [symmetric] Inr] by simp
      moreover have "poll cfg net a t s st tw tr = poll cfg net a t s st' (tw + 10) tr1"
        using True g Inr by (intro poll_step) auto
      ultimately show ?thesis using keep by simp
    qed
  qed
qed

text \<open>The number of rounds, from any value of \<^verbatim>\<open>time_waited\<close>.\<close>

lemma poll_rounds_bound:
  "poll_rounds (snd (poll cfg net a t s st tw tr))
     \<le> poll_rounds tr + (if tw \<le> update_service_timeout cfg
                          then nat ((update_service_timeout cfg - tw) div 10 + 1) else 0)"
proof (induction cfg net a t s st tw tr rule: poll.induct)
  case (1 cfg net a t s st tw tr)
  show ?case
  proof (cases "st = JStr IN_PROGRESS \<and> tw \<le> update_service_timeout cfg")
    case False
    then show ?thesis by (simp add: poll_stop)
  next
    case True
    obtain r tr1 where g:
      "get_service_instance_status cfg net a t s (tr @ [Log INFO Update_In_Progress, Sleep 10]) = (r, tr1)"
      by (cases "get_service_instance_status cfg net a t s (tr @ [Log INFO Update_In_Progress, Sleep 10])")
         auto
    have body: "and_then (emit (Log INFO Update_In_Progress)) (\<lambda>_. and_then (emit (Sleep 10))
        (\<lambda>_. get_service_instance_status cfg net a t s)) tr = (r, tr1)"
      using g by (simp add: and_then_def emit_def)
    have one: "poll_rounds tr1 = poll_rounds tr + 1"
      using status_trace [OF g] by (auto simp: poll_rounds_def)
    have step: "nat ((update_service_timeout cfg - tw) div 10 + 1)
        = 1 + (if tw + 10 \<le> update_service_timeout cfg
               then nat ((update_service_timeout cfg - (tw + 10)) div 10 + 1) else 0)"
      using True by (auto simp: div_pos_pos_trivial)
    show ?thesis
    proof (cases r)
      case (Inl e)
      then have "poll cfg net a t s st tw tr = (Inl e, tr1)"
        using True g by (intro poll_abort) auto
      moreover have "0 \<le> (update_service_timeout cfg - tw) div 10"
        using True by (simp add: pos_imp_zdiv_nonneg_iff)
      ultimately show ?thesis using True one by simp
    next
      case (Inr st')
      have "poll_rounds (snd (poll cfg net a t s st' (tw + 10) tr1))
          \<le> poll_rounds tr1 + (if tw + 10 \<le> update_service_timeout cfg
                then nat ((update_service_timeout cfg - (tw + 10)) div 10 + 1) else 0)"
        using "1.IH" [OF True body [symmetric] Inr] by simp
      moreover have "poll cfg net a t s st tw tr = poll cfg net a t s st' (tw + 10) tr1"
        using True g Inr by (intro poll_step) auto
      ultimately show ?thesis using True one step by simp
    qed
  qed
qed

lemma wait_keeps:
  assumes "\<And>u h x. \<not> P (Request (Details_Get u h) x)" "\<And>l m. \<not> P (Log l m)" "\<And>n. \<not> P (Sleep n)"
  shows "filter P (snd (wait_for_update cfg net a t s n tr)) = filter P tr"
proof -
  obtain r tr1 where g: "get_service_instance_status cfg net a t s tr = (r, tr1)"
    by (cases "get_service_instance_status cfg net a t s tr") auto
  have k1: "filter P tr1 = filter P tr"
    using status_trace [OF g] assms by auto
  show ?thesis
  proof (cases r)
    case (Inl e)
    then show ?thesis using g k1 by (simp add: wait_for_update_def and_then_def)
  next
    case (Inr st)
    obtain r2 tr2 where p: "poll cfg net a t s st 30 (tr1 @ [Sleep 30]) = (r2, tr2)"
      by (cases "poll cfg net a t s st 30 (tr1 @ [Sleep 30])") auto
    have "filter P tr2 = filter P (tr1 @ [Sleep 30])"
      using poll_keeps [of P cfg net a t s st 30 "tr1 @ [Sleep 30]"] assms p by simp
    then have k2: "filter P tr2 = filter P tr" using k1 assms by simp
    show ?thesis using g Inr p k2 assms
      by (auto simp: wait_for_update_def and_then_def emit_def ret_def raise_def split: sum.splits)
  qed
qed

lemma wait_rounds:
  "poll_rounds (snd (wait_for_update cfg net a t s n tr))
     \<le> poll_rounds tr + (if 30 \<le> update_service_timeout cfg
                          then nat ((update_service_timeout cfg - 30) div 10 + 1) else 0)"
proof -
  obtain r tr1 where g: "get_service_instance_status cfg net a t s tr = (r, tr1)"
    by (cases "get_service_instance_status cfg net a t s tr") auto
  have k1: "poll_rounds tr1 = poll_rounds tr"
    using status_trace [OF g] by (auto simp: poll_rounds_def)
  show ?thesis
  proof (cases r)
    case (Inl e)
    then show ?thesis using g k1 by (simp add: wait_for_update_def and_then_def)
  next
    case (Inr st)
    obtain r2 tr2 where p: "poll cfg net a t s st 30 (tr1 @ [Sleep 30]) = (r2, tr2)"
      by (cases "poll cfg net a t s st 30 (tr1 @ [Sleep 30])") auto
    have "poll_rounds tr2 \<le> poll_rounds (tr1 @ [Sleep 30]) + (if 30 \<le> update_service_timeout cfg
                          then nat ((update_service_timeout cfg - 30) div 10 + 1) else 0)"
      using poll_rounds_bound [of cfg net a t s st 30 "tr1 @ [Sleep 30]"] p by simp
    moreover have "poll_rounds (tr1 @ [Sleep 30]) = poll_rounds tr" using k1 by (simp add: poll_rounds_def)
    ultimately have k2: "poll_rounds tr2 \<le> poll_rounds tr + (if 30 \<le> update_service_timeout cfg
                          then nat ((update_service_timeout cfg - 30) div 10 + 1) else 0)" by simp
    have "poll_rounds (snd (wait_for_update cfg net a t s n tr)) = poll_rounds tr2"
      using g Inr p
      by (auto simp: wait_for_update_def and_then_def emit_def ret_def raise_def poll_rounds_def split: sum.splits)
    then show ?thesis using k2 by simp
  qed
qed

lemma wait_active:
  assumes "get_service_instance_status cfg net a t s tr = (Inr (JStr ACTIVE), tr1)"
  shows "wait_for_update cfg net a t s n tr = (Inr 0, tr1 @ [Sleep 30, Log INFO (Updated_Successfully n s)])"
  using assms
  by (simp add: wait_for_update_def and_then_def emit_def ret_def poll_stop IN_PROGRESS_def ACTIVE_def)


subsection \<open>The checks of the payload\<close>

lemma is_tag_iff: "(is_tag p n = Inr True) = has_tag p n"
  by (auto simp: is_tag_def has_tag_def seq_def split: sum.splits if_splits)

lemma read_tags_sid:
  assumes "\<not> has_tag p ''service_identifier''" "read_tags p (i0, s0, n0) = Inr (i, s, n)"
  shows "s = s0"
proof -
  have "is_tag p ''service_identifier'' \<noteq> Inr True" using assms(1) by (simp add: is_tag_iff)
  then show ?thesis using assms(2)
    by (auto simp: read_tags_def seq_def split: sum.splits if_splits)
qed

lemma read_tags_itp:
  assumes "\<not> has_tag p ''turbonomic_instance_type''" "read_tags p (i0, s0, n0) = Inr (i, s, n)"
  shows "i = i0"
proof -
  have "is_tag p ''turbonomic_instance_type'' \<noteq> Inr True" using assms(1) by (simp add: is_tag_iff)
  then show ?thesis using assms(2)
    by (auto simp: read_tags_def seq_def split: sum.splits if_splits)
qed

lemma scan_sid:
  assumes "\<forall>p\<in>set props. \<not> has_tag p ''service_identifier''"
    and "scan_entity_properties props (i0, s0, n0) = Inr (i, s, n)"
  shows "s = s0"
  using assms
proof (induction props arbitrary: i0 n0)
  case Nil
  then show ?case by simp
next
  case (Cons p props)
  then show ?case
    by (auto split: sum.splits prod.splits if_splits dest: read_tags_sid)
qed

lemma scan_itp:
  assumes "\<forall>p\<in>set props. \<not> has_tag p ''turbonomic_instance_type''"
    and "scan_entity_properties props (i0, s0, n0) = Inr (i, s, n)"
  shows "i = i0"
  using assms
proof (induction props arbitrary: s0 n0)
  case Nil
  then show ?case by simp
next
  case (Cons p props)
  then show ?case
    by (auto split: sum.splits prod.splits if_splits dest: read_tags_itp)
qed


lemma read_scale_action_trace:
  assumes "read_scale_action inp tr = (r, tr')"
  shows "case r of Inl e \<Rightarrow> tr' = tr
         | Inr (Inl n) \<Rightarrow> n = 1 \<and> (\<exists>m. tr' = tr @ [Log ERROR m])
         | Inr (Inr x) \<Rightarrow> tr' = tr"
  using assms
  by (auto simp: read_scale_action_def and_then_def ret_def raise_def lift_def emit_def
           split: if_splits sum.splits prod.splits option.splits)

lemma main_run:
  obtains (raised) e where "read_scale_action inp [] = (Inl e, [])" "main cfg net inp = (Inl e, [])"
  | (rejected) m where "read_scale_action inp [] = (Inr (Inl 1), [Log ERROR m])"
      "main cfg net inp = (Inr 1, [Log ERROR m])"
  | (accepted) i s n nit where "read_scale_action inp [] = (Inr (Inr ((i, s, n), nit)), [])"
      "main cfg net inp = update_and_wait cfg net (i, s, n) nit []"
proof -
  obtain r tr where rd: "read_scale_action inp [] = (r, tr)"
    by (cases "read_scale_action inp []") auto
  show thesis
  proof (cases r)
    case (Inl e)
    then show ?thesis using rd read_scale_action_trace [OF rd] raised [of e]
      by (simp add: main_def and_then_def)
  next
    case (Inr v)
    show ?thesis
    proof (cases v)
      case (Inl k)
      then show ?thesis using Inr rd read_scale_action_trace [OF rd] rejected
        by (auto simp: main_def and_then_def ret_def)
    next
      case (Inr x)
      obtain i s n nit where "x = ((i, s, n), nit)" by (cases x) auto
      then show ?thesis using Inr \<open>r = Inr v\<close> rd read_scale_action_trace [OF rd] accepted [of i s n nit]
        by (auto simp: main_def and_then_def ret_def)
    qed
  qed
qed

subsection \<open>The calls before the wait\<close>

lemma get_access_token_run:
  obtains (raised) e u f a where
      "get_access_token cfg net [] = (Inl e, [Request (Identity_Token_Post u f) a])"
      "a = Inl e \<or> (\<exists>x. a = Inr x \<and> status_code x = 200)"
  | (refused) u f x where
      "get_access_token cfg net [] = (Inr JNull, [Request (Identity_Token_Post u f) (Inr x),
          Log ERROR (Error_Authenticating (status_code x) (user cfg))])"
      "status_code x \<noteq> 200"
  | (granted) tok u f x where
      "get_access_token cfg net [] = (Inr tok, [Request (Identity_Token_Post u f) (Inr x)])"
      "status_code x = 200"
proof -
  let ?rq = "Identity_Token_Post (auth_url cfg @ ''/v1/auth/identitytoken'')
        [(''grant_type'', ''password''), (''username'', user cfg),
         (''password'', password cfg), (''scope'', ''openid'')]"
  note defs = get_access_token_def and_then_def lift_def ret_def raise_def http_def emit_def Let_def
  show thesis
  proof (cases "net 0 ?rq")
    case (Inl e)
    then have "get_access_token cfg net [] = (Inl e, [Request ?rq (Inl e)])"
      by (simp add: defs)
    then show ?thesis by (rule raised) simp
  next
    case (Inr x)
    note net = this
    show ?thesis
    proof (cases "status_code x = 200")
      case False
      then have "get_access_token cfg net [] = (Inr JNull, [Request ?rq (Inr x),
          Log ERROR (Error_Authenticating (status_code x) (user cfg))])"
        using net by (simp add: defs)
      then show ?thesis using False by (rule refused)
    next
      case True
      show ?thesis
      proof (cases "seq (response_json x) (\<lambda>j. subscript j ''access_token'')")
        case (Inl e)
        then have "get_access_token cfg net [] = (Inl e, [Request ?rq (Inr x)])"
          using net True by (simp add: defs)
        then show ?thesis by (rule raised) (simp add: True)
      next
        case (Inr tok)
        then have "get_access_token cfg net [] = (Inr tok, [Request ?rq (Inr x)])"
          using net True by (simp add: defs)
        then show ?thesis using True by (rule granted)
      qed
    qed
  qed
qed

lemma get_tenant_id_run:
  assumes "tok \<noteq> JNull"
  obtains (raised) e ev where "get_tenant_id cfg net tok tr = (Inl e, tr @ ev)"
      "ev = [] \<or> (\<exists>u a y. ev = [Request (Tenant_Get u a) y])"
  | (refused) u a x where
      "get_tenant_id cfg net tok tr = (Inr JNull, tr @ [Request (Tenant_Get u a) (Inr x),
          Log ERROR (Error_Getting_Tenant (status_code x))])"
  | (resolved) ten u a x where
      "get_tenant_id cfg net tok tr = (Inr ten, tr @ [Request (Tenant_Get u a) (Inr x)])"
      "str_add ''Bearer '' tok = Inr a"
proof (cases "str_add ''Bearer '' tok")
  case (Inl e)
  then have "get_tenant_id cfg net tok tr = (Inl e, tr @ [])"
    using assms by (simp add: get_tenant_id_def and_then_def lift_def raise_def)
  then show ?thesis by (rule raised) simp
next
  case (Inr a)
  note a = this
  let ?rq = "Tenant_Get (cam_url cfg @ ''/cam/tenant/api/v1/tenants/getTenantOnPrem'') a"
  let ?k = "length (filter is_request tr)"
  note defs = get_tenant_id_def and_then_def lift_def ret_def raise_def http_def emit_def Let_def
  show ?thesis
  proof (cases "net ?k ?rq")
    case (Inl e)
    then have "get_tenant_id cfg net tok tr = (Inl e, tr @ [Request ?rq (Inl e)])"
      using assms a by (simp add: defs)
    then show ?thesis by (rule raised) simp
  next
    case (Inr x)
    note net = this
    show ?thesis
    proof (cases "status_code x = 200")
      case False
      then have "get_tenant_id cfg net tok tr = (Inr JNull, tr @ [Request ?rq (Inr x),
          Log ERROR (Error_Getting_Tenant (status_code x))])"
        using assms a net by (simp add: defs)
      then show ?thesis by (rule refused)
    next
      case True
      show ?thesis
      proof (cases "seq (response_json x) (\<lambda>j. subscript j ''id'')")
        case (Inl e)
        then have "get_tenant_id cfg net tok tr = (Inl e, tr @ [Request ?rq (Inr x)])"
          using assms a net True by (simp add: defs)
        then show ?thesis by (rule raised) simp
      next
        case (Inr ten)
        then have "get_tenant_id cfg net tok tr = (Inr ten, tr @ [Request ?rq (Inr x)])"
          using assms a net True by (simp add: defs)
        then show ?thesis using a by (rule resolved)
      qed
    qed
  qed
qed

lemma update_service_instance_run:
  obtains (raised) e ev where
      "update_service_instance cfg net tok ten s i nit tr = (Inl e, tr @ ev)"
      "ev = [] \<or> (\<exists>u a e'. ev = [Request (Update_Post u a i nit) (Inl e')])"
  | (refused) u a x where
      "update_service_instance cfg net tok ten s i nit tr =
         (Inr (status_code x), tr @ [Request (Update_Post u a i nit) (Inr x),
            Log ERROR (Error_Updating (status_code x) s), Log ERROR (Response_Text (body_text x))])"
      "status_code x \<noteq> 200"
  | (accepted) u a x where
      "update_service_instance cfg net tok ten s i nit tr =
         (Inr 200, tr @ [Request (Update_Post u a i nit) (Inr x)])"
      "status_code x = 200"
proof (cases "hashable i")
  case False
  then have "update_service_instance cfg net tok ten s i nit tr = (Inl TypeError, tr @ [])"
    by (simp add: update_service_instance_def raise_def)
  then show ?thesis by (rule raised) simp
next
  case True
  note h = this
  note defs = update_service_instance_def and_then_def lift_def ret_def raise_def http_def emit_def Let_def
  show ?thesis
  proof (cases "str_add ''Bearer '' tok")
    case (Inl e)
    then have "update_service_instance cfg net tok ten s i nit tr = (Inl e, tr @ [])"
      using h by (simp add: defs)
    then show ?thesis by (rule raised) simp
  next
    case (Inr a)
    note a = this
    show ?thesis
    proof (cases "update_url cfg s ten")
      case (Inl e)
      then have "update_service_instance cfg net tok ten s i nit tr = (Inl e, tr @ [])"
        using h a by (simp add: defs)
      then show ?thesis by (rule raised) simp
    next
      case (Inr u)
      note u = this
      let ?rq = "Update_Post u a i nit"
      show ?thesis
      proof (cases "net (length (filter is_request tr)) ?rq")
        case (Inl e)
        then have "update_service_instance cfg net tok ten s i nit tr
            = (Inl e, tr @ [Request ?rq (Inl e)])"
          using h a u by (simp add: defs)
        then show ?thesis by (rule raised) simp
      next
        case (Inr x)
        note net = this
        show ?thesis
        proof (cases "status_code x = 200")
          case False
          then have "update_service_instance cfg net tok ten s i nit tr =
             (Inr (status_code x), tr @ [Request ?rq (Inr x),
                Log ERROR (Error_Updating (status_code x) s), Log ERROR (Response_Text (body_text x))])"
            using h a u net by (simp add: defs)
          then show ?thesis using False by (rule refused)
        next
          case True
          then have "update_service_instance cfg net tok ten s i nit tr =
             (Inr 200, tr @ [Request ?rq (Inr x)])"
            using h a u net by (simp add: defs)
          then show ?thesis using True by (rule accepted)
        qed
      qed
    qed
  qed
qed

lemma accepted_run:
  obtains (stopped) r tr where
      "update_and_wait cfg net (i, s, n) nit [] = (r, tr)" "r \<noteq> Inr 0"
      "filter details_call tr = []" "filter is_sleep tr = []" "poll_rounds tr = 0"
      "set (update_keys tr) \<subseteq> {i}"
      "\<And>u a k v x. Request (Update_Post u a k v) (Inr x) \<in> set tr \<Longrightarrow> status_code x \<noteq> 200 \<and> r = Inr 1"
      "\<And>u f x. Request (Identity_Token_Post u f) (Inr x) \<in> set tr \<Longrightarrow> status_code x \<noteq> 200 \<Longrightarrow>
          r = Inr 1 \<and> tr = [Request (Identity_Token_Post u f) (Inr x),
                 Log ERROR (Error_Authenticating (status_code x) (user cfg))]
          \<and> get_access_token cfg net [] = (Inr JNull, tr)"
  | (waiting) tok ten u0 f0 x0 u1 a1 x1 u2 a2 x2 where
      "update_and_wait cfg net (i, s, n) nit [] =
         wait_for_update cfg net tok ten s n
           [Request (Identity_Token_Post u0 f0) (Inr x0), Request (Tenant_Get u1 a1) (Inr x1),
            Log INFO (Update_Service_Instance n s nit), Request (Update_Post u2 a2 i nit) (Inr x2)]"
      "status_code x0 = 200" "status_code x2 = 200" "tok \<noteq> JNull" "ten \<noteq> JNull"
proof (cases rule: get_access_token_run [where cfg = cfg and net = net])
  case (raised e u f a)
  then have "update_and_wait cfg net (i, s, n) nit [] = (Inl e, [Request (Identity_Token_Post u f) a])"
    by (simp add: update_and_wait_def and_then_def)
  then show ?thesis
    by (rule stopped) (use raised(2) in \<open>auto simp: poll_rounds_def update_keys_def\<close>)
next
  case (refused u f x)
  then have "update_and_wait cfg net (i, s, n) nit [] = (Inr 1, [Request (Identity_Token_Post u f) (Inr x),
          Log ERROR (Error_Authenticating (status_code x) (user cfg))])"
    by (simp add: update_and_wait_def and_then_def ret_def)
  then show ?thesis
    by (rule stopped) (use refused(1) in \<open>auto simp: poll_rounds_def update_keys_def\<close>)
next
  case (granted tok u0 f0 x0)
  note tok = this
  let ?ea = "Request (Identity_Token_Post u0 f0) (Inr x0)"
  show ?thesis
  proof (cases "tok = JNull")
    case True
    then have "update_and_wait cfg net (i, s, n) nit [] = (Inr 1, [?ea])"
      using tok by (simp add: update_and_wait_def and_then_def ret_def)
    then show ?thesis
      by (rule stopped) (use tok(2) in \<open>auto simp: poll_rounds_def update_keys_def\<close>)
  next
    case False
    note tok_ok = this
    show ?thesis
    proof (rule get_tenant_id_run [where tok = tok and cfg = cfg and net = net and tr = "[?ea]", OF tok_ok],
        goal_cases)
      case raised: (1 e ev)
      then have "update_and_wait cfg net (i, s, n) nit [] = (Inl e, [?ea] @ ev)"
        using tok tok_ok by (simp add: update_and_wait_def and_then_def)
      then show ?thesis
        by (rule stopped) (use tok(2) raised(2) in \<open>auto simp: poll_rounds_def update_keys_def\<close>)
    next
      case (2 u a x)
      then have "update_and_wait cfg net (i, s, n) nit [] = (Inr 1, [?ea, Request (Tenant_Get u a) (Inr x),
          Log ERROR (Error_Getting_Tenant (status_code x))])"
        using tok tok_ok by (simp add: update_and_wait_def and_then_def ret_def)
      then show ?thesis
        by (rule stopped) (use tok(2) in \<open>auto simp: poll_rounds_def update_keys_def\<close>)
    next
      case (3 ten u1 a1 x1)
      note ten = this
      let ?eb = "Request (Tenant_Get u1 a1) (Inr x1)"
      show ?thesis
      proof (cases "ten = JNull")
        case True
        then have "update_and_wait cfg net (i, s, n) nit [] = (Inr 1, [?ea, ?eb])"
          using tok tok_ok ten by (simp add: update_and_wait_def and_then_def ret_def)
        then show ?thesis
          by (rule stopped) (use tok(2) in \<open>auto simp: poll_rounds_def update_keys_def\<close>)
      next
        case False
        note ten_ok = this
        let ?l = "Log INFO (Update_Service_Instance n s nit)"
        show ?thesis
        proof (rule update_service_instance_run [where cfg = cfg and net = net and tok = tok
              and ten = ten and s = s and i = i and nit = nit and tr = "[?ea, ?eb, ?l]"], goal_cases)
          case raised: (1 e ev)
          then have "update_and_wait cfg net (i, s, n) nit [] = (Inl e, [?ea, ?eb, ?l] @ ev)"
            using tok tok_ok ten ten_ok by (simp add: update_and_wait_def and_then_def emit_def)
          then show ?thesis
            by (rule stopped) (use tok(2) raised(2) in \<open>auto simp: poll_rounds_def update_keys_def\<close>)
        next
          case refused: (2 u a x)
          then have "update_and_wait cfg net (i, s, n) nit [] = (Inr 1, [?ea, ?eb, ?l,
              Request (Update_Post u a i nit) (Inr x),
              Log ERROR (Error_Updating (status_code x) s), Log ERROR (Response_Text (body_text x))])"
            using tok tok_ok ten ten_ok by (simp add: update_and_wait_def and_then_def emit_def ret_def)
          then show ?thesis
            by (rule stopped) (use tok(2) refused(2) in \<open>auto simp: poll_rounds_def update_keys_def\<close>)
        next
          case accepted: (3 u a x)
          then have "update_and_wait cfg net (i, s, n) nit [] =
              wait_for_update cfg net tok ten s n [?ea, ?eb, ?l, Request (Update_Post u a i nit) (Inr x)]"
            using tok tok_ok ten ten_ok by (simp add: update_and_wait_def and_then_def emit_def ret_def)
          then show ?thesis using tok(2) accepted(2) tok_ok ten_ok by (rule waiting)
        qed
      qed
    qed
  qed
qed

lemma poll_extends: "\<exists>rest. snd (poll cfg net a t s st tw tr) = tr @ rest"
proof (induction cfg net a t s st tw tr rule: poll.induct)
  case (1 cfg net a t s st tw tr)
  show ?case
  proof (cases "st = JStr IN_PROGRESS \<and> tw \<le> update_service_timeout cfg")
    case False
    then show ?thesis by (simp add: poll_stop)
  next
    case True
    obtain r tr1 where g:
      "get_service_instance_status cfg net a t s (tr @ [Log INFO Update_In_Progress, Sleep 10]) = (r, tr1)"
      by (cases "get_service_instance_status cfg net a t s (tr @ [Log INFO Update_In_Progress, Sleep 10])")
         auto
    have body: "and_then (emit (Log INFO Update_In_Progress)) (\<lambda>_. and_then (emit (Sleep 10))
        (\<lambda>_. get_service_instance_status cfg net a t s)) tr = (r, tr1)"
      using g by (simp add: and_then_def emit_def)
    have ext: "\<exists>rest. tr1 = tr @ rest"
      using status_trace [OF g] by auto
    show ?thesis
    proof (cases r)
      case (Inl e)
      then show ?thesis using True g ext by (simp add: poll_abort)
    next
      case (Inr st')
      have "\<exists>rest. snd (poll cfg net a t s st' (tw + 10) tr1) = tr1 @ rest"
        using "1.IH" [OF True body [symmetric] Inr] by simp
      moreover have "poll cfg net a t s st tw tr = poll cfg net a t s st' (tw + 10) tr1"
        using True g Inr by (intro poll_step) auto
      ultimately show ?thesis using ext by auto
    qed
  qed
qed

lemma wait_extends:
  assumes "get_service_instance_status cfg net a t s tr = (r, tr1)"
  shows "\<exists>rest. snd (wait_for_update cfg net a t s n tr) = tr1 @ rest"
proof (cases r)
  case (Inl e)
  then show ?thesis using assms by (simp add: wait_for_update_def and_then_def)
next
  case (Inr st)
  obtain r2 tr2 where p: "poll cfg net a t s st 30 (tr1 @ [Sleep 30]) = (r2, tr2)"
    by (cases "poll cfg net a t s st 30 (tr1 @ [Sleep 30])") auto
  obtain rest where "tr2 = (tr1 @ [Sleep 30]) @ rest"
    using poll_extends [of cfg net a t s st 30 "tr1 @ [Sleep 30]"] p by auto
  then show ?thesis using assms Inr p
    by (auto simp: wait_for_update_def and_then_def emit_def ret_def raise_def split: sum.splits)
qed

lemma get_service_instance_status_run:
  assumes "tok \<noteq> JNull" "ten \<noteq> JNull"
  obtains (raised) e ev where "get_service_instance_status cfg net tok ten s tr = (Inl e, tr @ ev)"
      "ev = [] \<or> (\<exists>u a e'. ev = [Request (Details_Get u a) (Inl e')])"
  | (refused) u a x where
      "get_service_instance_status cfg net tok ten s tr =
         (Inr JNull, tr @ [Request (Details_Get u a) (Inr x),
            Log ERROR (Error_Getting_Details (status_code x) s), Log ERROR (Response_Text (body_text x))])"
      "status_code x \<noteq> 200"
  | (answered) u a x where
      "get_service_instance_status cfg net tok ten s tr =
         (case json_body x of None \<Rightarrow> Inl JSONDecodeError
          | Some d \<Rightarrow> if d \<noteq> JNull then subscript d ''Status'' else Inr JNull,
          tr @ [Request (Details_Get u a) (Inr x)])"
      "status_code x = 200"
proof -
  note defs = get_service_instance_status_def get_service_instance_details_def and_then_def lift_def
    ret_def raise_def http_def emit_def Let_def response_json_def
  show thesis
  proof (cases "str_add ''Bearer '' tok")
    case (Inl e)
    then have "get_service_instance_status cfg net tok ten s tr = (Inl e, tr @ [])"
      using assms by (simp add: defs)
    then show ?thesis by (rule raised) simp
  next
    case (Inr a)
    note a = this
    show ?thesis
    proof (cases "details_url cfg s ten")
      case (Inl e)
      then have "get_service_instance_status cfg net tok ten s tr = (Inl e, tr @ [])"
        using assms a by (simp add: defs)
      then show ?thesis by (rule raised) simp
    next
      case (Inr u)
      note u = this
      let ?rq = "Details_Get u a"
      show ?thesis
      proof (cases "net (length (filter is_request tr)) ?rq")
        case (Inl e)
        then have "get_service_instance_status cfg net tok ten s tr = (Inl e, tr @ [Request ?rq (Inl e)])"
          using assms a u by (simp add: defs)
        then show ?thesis by (rule raised) simp
      next
        case (Inr x)
        note net = this
        show ?thesis
        proof (cases "status_code x = 200")
          case False
          then have "get_service_instance_status cfg net tok ten s tr =
             (Inr JNull, tr @ [Request ?rq (Inr x),
                Log ERROR (Error_Getting_Details (status_code x) s), Log ERROR (Response_Text (body_text x))])"
            using assms a u net by (simp add: defs)
          then show ?thesis using False by (rule refused)
        next
          case True
          then have "get_service_instance_status cfg net tok ten s tr =
             (case json_body x of None \<Rightarrow> Inl JSONDecodeError
              | Some d \<Rightarrow> if d \<noteq> JNull then subscript d ''Status'' else Inr JNull,
              tr @ [Request ?rq (Inr x)])"
            using assms a u net by (simp add: defs split: option.splits sum.splits)
          then show ?thesis using True by (rule answered)
        qed
      qed
    qed
  qed
qed

lemma update_keys_filter: "update_keys tr = update_keys (filter update_call tr)"
proof (induction tr)
  case Nil
  then show ?case by simp
next
  case (Cons e tr)
  then show ?case by (cases e rule: update_call.cases) (simp_all add: update_keys_def)
qed

lemma find_scale_action_first:
  assumes "\<forall>y\<in>set pre. \<exists>t. subscript y ''actionType'' = Inr t \<and> t \<noteq> JStr ''SCALE''"
    and "subscript x ''actionType'' = Inr (JStr ''SCALE'')"
  shows "find_scale_action (pre @ x # post) = Inr (Some x)"
  using assms by (induction pre) auto



lemma py_get_subscript: "subscript j k = Inr v \<Longrightarrow> py_get j k d = Inr v"
  by (cases j) (auto split: option.splits)

lemma read_scale_action_accepted:
  assumes "read_scale_action inp tr = (Inr (Inr ((i, s, n), nit)), tr')"
  obtains items sa props i0 where
    "subscript inp ''actionType'' = Inr (JStr ''SCALE'')"
    "seq (subscript inp ''actionItem'') py_iter = Inr items"
    "find_scale_action items = Inr (Some sa)"
    "seq (seq (subscript sa ''targetSE'') (\<lambda>se. subscript se ''entityProperties'')) py_iter = Inr props"
    "scan_entity_properties props (JNull, JNull, JNull) = Inr (i0, s, n)"
    "s \<noteq> JNull"
    "i = (if i0 = JNull then JStr ''instance_type'' else i0)"
    "seq (seq (subscript sa ''newSE'') (\<lambda>se. subscript se ''id'')) third_segment = Inr nit"
  using assms
  by (auto simp: read_scale_action_def and_then_def ret_def raise_def lift_def emit_def
           split: if_splits sum.splits prod.splits option.splits)

section \<open>The claims\<close>

text \<open>
  Claim C4. For every input whose top-level \<^verbatim>\<open>actionType\<close> field is not equal to
  \<^verbatim>\<open>"SCALE"\<close>, the program exits with status 1 without making any network call:
  \<^verbatim>\<open>main\<close> returns 1, and the trace of the run is the one error line of the log.
\<close>

theorem wrong_action_type_exits_1:
  assumes "subscript inp ''actionType'' = Inr t" and "t \<noteq> JStr ''SCALE''"
  shows "main cfg net inp = (Inr 1, [Log ERROR (Action_Type_Not_Supported t)])
       \<and> exit_status (main cfg net inp) = 1
       \<and> filter is_request (snd (main cfg net inp)) = []"
  using assms
  by (simp add: main_def read_scale_action_def and_then_def ret_def raise_def lift_def emit_def
        exit_status_def)

theorem wrong_action_type_exits_1_witness:
  "subscript (example_payload ''RESIZE'' []) ''actionType'' = Inr (JStr ''RESIZE'')
   \<and> JStr ''RESIZE'' \<noteq> JStr ''SCALE''
   \<and> main (example_settings 60) (example_server 200 200 (JStr ''Active'')) (example_payload ''RESIZE'' [])
       = (Inr 1, [Log ERROR (Action_Type_Not_Supported (JStr ''RESIZE''))])
   \<and> exit_status (main (example_settings 60) (example_server 200 200 (JStr ''Active''))
        (example_payload ''RESIZE'' [])) = 1"
proof -
  have h1: "subscript (example_payload ''RESIZE'' []) ''actionType'' = Inr (JStr ''RESIZE'')"
    by (simp add: example_payload_def)
  have h2: "JStr ''RESIZE'' \<noteq> JStr ''SCALE''" by simp
  show ?thesis
    using wrong_action_type_exits_1 [OF h1 h2, of "example_settings 60"
        "example_server 200 200 (JStr ''Active'')"] h1
    by (simp add: exit_status_def)
qed

text \<open>
  Claim C10. For every configured timeout \<open>T\<close> and whatever the status requests are
  answered with, the wait loop ends, and its body runs at most \<open>(T - 30) div 10 + 1\<close>
  times when \<open>30 \<le> T\<close> and not at all when \<open>T < 30\<close>. The loop is the total function
  \<open>poll\<close>, whose termination proof is by the measure \<open>T + 10 - time_waited\<close>; the bound
  is stated for the loop started at \<^verbatim>\<open>time_waited = 30\<close> from any trace, and for every
  run of \<^verbatim>\<open>main\<close>.
\<close>

theorem poll_rounds_bounded:
  "poll_rounds (snd (poll cfg net access_token tenant_id service_instance_id service_instance_status 30 tr))
     \<le> poll_rounds tr + (if 30 \<le> update_service_timeout cfg
                          then nat ((update_service_timeout cfg - 30) div 10 + 1) else 0)
   \<and> poll_rounds (snd (main cfg net inp))
     \<le> (if 30 \<le> update_service_timeout cfg
         then nat ((update_service_timeout cfg - 30) div 10 + 1) else 0)"
proof
  show "poll_rounds (snd (poll cfg net access_token tenant_id service_instance_id service_instance_status 30 tr))
     \<le> poll_rounds tr + (if 30 \<le> update_service_timeout cfg
                          then nat ((update_service_timeout cfg - 30) div 10 + 1) else 0)"
    by (rule poll_rounds_bound)
next
  show "poll_rounds (snd (main cfg net inp))
     \<le> (if 30 \<le> update_service_timeout cfg
         then nat ((update_service_timeout cfg - 30) div 10 + 1) else 0)"
  proof (cases rule: main_run [of inp cfg net])
    case (raised e)
    then show ?thesis by (simp add: poll_rounds_def)
  next
    case (rejected m)
    then show ?thesis by (simp add: poll_rounds_def)
  next
    case (accepted i s n nit)
    show ?thesis
    proof (rule accepted_run [of cfg net i s n nit], goal_cases)
      case (1 r tr)
      then show ?case using accepted(2) by simp
    next
      case (2 tok ten u0 f0 x0 u1 a1 x1 u2 a2 x2)
      have "poll_rounds [Request (Identity_Token_Post u0 f0) (Inr x0), Request (Tenant_Get u1 a1) (Inr x1),
            Log INFO (Update_Service_Instance n s nit), Request (Update_Post u2 a2 i nit) (Inr x2)] = 0"
        by (simp add: poll_rounds_def)
      then show ?case using accepted(2) 2(1)
          wait_rounds [of cfg net tok ten s n "[Request (Identity_Token_Post u0 f0) (Inr x0),
            Request (Tenant_Get u1 a1) (Inr x1),
            Log INFO (Update_Service_Instance n s nit), Request (Update_Post u2 a2 i nit) (Inr x2)]"]
        by simp
    qed
  qed
qed

text \<open>
  Claim C1. If the update call returns HTTP 200 and the status is still
  \<^verbatim>\<open>"In Progress"\<close> when the wait loop ends, the program logs a still-pending message
  and exits with status 0. The code does not: on the run below (timeout 30, every
  status request answered with \<^verbatim>\<open>"In Progress"\<close>) the loop ends after one round with
  the status still in progress, line 242 raises \<^verbatim>\<open>NameError\<close>, so the exit status is
  1; the messages logged at level INFO are the announcement of the update and one
  in-progress line, and the last event of the run is the answer to the last status
  request.
\<close>

theorem still_in_progress_raises_NameError:
  "fst (main (example_settings 30) (example_server 200 200 (JStr ''In Progress'')) example_input)
     = Inl NameError
   \<and> exit_status (main (example_settings 30) (example_server 200 200 (JStr ''In Progress''))
        example_input) = 1
   \<and> info_logs (snd (main (example_settings 30) (example_server 200 200 (JStr ''In Progress''))
        example_input))
     = [Update_Service_Instance JNull (JStr ''sid1'') ''m1.large'', Update_In_Progress]
   \<and> last (snd (main (example_settings 30) (example_server 200 200 (JStr ''In Progress''))
        example_input))
     = Request example_details_request (Inr (response 200 (JObj [(''Status'', JStr ''In Progress'')])))"
  by code_simp

text \<open>
  Claim C2. If the update call returns any status other than 200, \<^verbatim>\<open>main\<close> returns
  1, so the program exits with status 1, and the run has no request for the details of
  the service instance.
\<close>

theorem update_refused_exits_1:
  assumes "Request (Update_Post u a k v) (Inr x) \<in> set (snd (main cfg net inp))"
    and "status_code x \<noteq> 200"
  shows "fst (main cfg net inp) = Inr 1
       \<and> exit_status (main cfg net inp) = 1
       \<and> filter details_call (snd (main cfg net inp)) = []"
proof (cases rule: main_run [of inp cfg net])
  case (raised e)
  then show ?thesis using assms by simp
next
  case (rejected m)
  then show ?thesis using assms by simp
next
  case (accepted i s n nit)
  show ?thesis
  proof (rule accepted_run [of cfg net i s n nit], goal_cases)
    case (1 r tr)
    then show ?case using accepted(2) assms by (auto simp: exit_status_def)
  next
    case (2 tok ten u0 f0 x0 u1 a1 x1 u2 a2 x2)
    let ?tr0 = "[Request (Identity_Token_Post u0 f0) (Inr x0), Request (Tenant_Get u1 a1) (Inr x1),
            Log INFO (Update_Service_Instance n s nit), Request (Update_Post u2 a2 i nit) (Inr x2)]"
    have "filter update_call (snd (main cfg net inp)) = filter update_call ?tr0"
      using accepted(2) 2(1) by (simp add: wait_keeps)
    moreover have "Request (Update_Post u a k v) (Inr x) \<in> set (filter update_call (snd (main cfg net inp)))"
      using assms(1) by simp
    ultimately have "x = x2" by simp
    then show ?case using assms(2) 2(3) by simp
  qed
qed

theorem update_refused_exits_1_witness:
  "Request example_update_request (Inr (response 500 JNull))
     \<in> set (snd (main (example_settings 60) (example_server 200 500 (JStr ''Active'')) example_input))
   \<and> fst (main (example_settings 60) (example_server 200 500 (JStr ''Active'')) example_input) = Inr 1
   \<and> exit_status (main (example_settings 60) (example_server 200 500 (JStr ''Active'')) example_input) = 1
   \<and> filter details_call
        (snd (main (example_settings 60) (example_server 200 500 (JStr ''Active'')) example_input)) = []"
proof -
  have h1: "Request (Update_Post
       ''https://cam/cam/composer/api/v1/ServiceInstances/sid1/update?tenantId=ten&ace_orgGuid=all''
       ''Bearer tok'' (JStr ''instance_type'') ''m1.large'') (Inr (response 500 JNull))
     \<in> set (snd (main (example_settings 60) (example_server 200 500 (JStr ''Active'')) example_input))"
    by code_simp
  have h2: "status_code (response 500 JNull) \<noteq> 200"
    by (simp add: response_def)
  show ?thesis
    using update_refused_exits_1 [OF h1 h2] h1 by (simp add: example_update_request_def)
qed

text \<open>
  Claim C3. If the authentication call returns any status other than 200, no access
  token is obtained (\<^verbatim>\<open>get_access_token\<close> returns \<^verbatim>\<open>None\<close>), the run consists of
  that one request and its error line in the log, so no tenant and no update request is
  made, and the program exits with status 1.
\<close>

theorem auth_refused_exits_1:
  assumes "Request (Identity_Token_Post u f) (Inr x) \<in> set (snd (main cfg net inp))"
    and "status_code x \<noteq> 200"
  shows "main cfg net inp = (Inr 1, [Request (Identity_Token_Post u f) (Inr x),
                                    Log ERROR (Error_Authenticating (status_code x) (user cfg))])
       \<and> get_access_token cfg net [] = (Inr JNull, snd (main cfg net inp))
       \<and> exit_status (main cfg net inp) = 1
       \<and> filter tenant_call (snd (main cfg net inp)) = []
       \<and> filter update_call (snd (main cfg net inp)) = []"
proof (cases rule: main_run [of inp cfg net])
  case (raised e)
  then show ?thesis using assms by simp
next
  case (rejected m)
  then show ?thesis using assms by simp
next
  case (accepted i s n nit)
  show ?thesis
  proof (rule accepted_run [of cfg net i s n nit], goal_cases)
    case (1 r tr)
    have "Request (Identity_Token_Post u f) (Inr x) \<in> set tr"
      using assms(1) accepted(2) 1(1) by simp
    from 1(8) [OF this assms(2)] show ?case using accepted(2) 1(1) by (simp add: exit_status_def)
  next
    case (2 tok ten u0 f0 x0 u1 a1 x1 u2 a2 x2)
    let ?tr0 = "[Request (Identity_Token_Post u0 f0) (Inr x0), Request (Tenant_Get u1 a1) (Inr x1),
            Log INFO (Update_Service_Instance n s nit), Request (Update_Post u2 a2 i nit) (Inr x2)]"
    have "filter auth_call (snd (main cfg net inp)) = filter auth_call ?tr0"
      using accepted(2) 2(1) by (simp add: wait_keeps)
    moreover have "Request (Identity_Token_Post u f) (Inr x) \<in> set (filter auth_call (snd (main cfg net inp)))"
      using assms(1) by simp
    ultimately have "x = x0" by simp
    then show ?case using assms(2) 2(2) by simp
  qed
qed

theorem auth_refused_exits_1_witness:
  "main (example_settings 60) (example_server 401 200 (JStr ''Active'')) example_input
     = (Inr 1, [Request example_token_request (Inr (response 401 (JObj [(''access_token'', JStr ''tok'')]))),
                Log ERROR (Error_Authenticating 401 ''admin'')])
   \<and> exit_status (main (example_settings 60) (example_server 401 200 (JStr ''Active'')) example_input) = 1
   \<and> filter tenant_call
        (snd (main (example_settings 60) (example_server 401 200 (JStr ''Active'')) example_input)) = []
   \<and> filter update_call
        (snd (main (example_settings 60) (example_server 401 200 (JStr ''Active'')) example_input)) = []"
proof -
  have h1: "Request (Identity_Token_Post ''https://auth/v1/auth/identitytoken''
       [(''grant_type'', ''password''), (''username'', ''admin''),
        (''password'', ''secret''), (''scope'', ''openid'')])
       (Inr (response 401 (JObj [(''access_token'', JStr ''tok'')])))
     \<in> set (snd (main (example_settings 60) (example_server 401 200 (JStr ''Active'')) example_input))"
    by code_simp
  have h2: "status_code (response 401 (JObj [(''access_token'', JStr ''tok'')])) \<noteq> 200"
    by (simp add: response_def)
  show ?thesis
    using auth_refused_exits_1 [OF h1 h2]
    by (simp add: example_token_request_def response_def example_settings_def exit_status_def)
qed

text \<open>
  Claim C5. When the entity properties of the matched SCALE item (the first item whose
  \<^verbatim>\<open>actionType\<close> is \<^verbatim>\<open>"SCALE"\<close>) have no entry with namespace \<^verbatim>\<open>VCTAGS\<close> and name
  \<^verbatim>\<open>service_identifier\<close>, the program exits with status 1 and the run has no request
  at all, so neither the tenant nor the update is asked for.
\<close>

theorem missing_service_identifier_exits_1:
  assumes "subscript inp ''actionItem'' = Inr (JArr (pre @ scale_action # post))"
    and "\<forall>y\<in>set pre. \<exists>t. subscript y ''actionType'' = Inr t \<and> t \<noteq> JStr ''SCALE''"
    and "subscript scale_action ''actionType'' = Inr (JStr ''SCALE'')"
    and "subscript scale_action ''targetSE'' = Inr target"
    and "subscript target ''entityProperties'' = Inr (JArr props)"
    and "\<forall>p\<in>set props. \<not> has_tag p ''service_identifier''"
  shows "exit_status (main cfg net inp) = 1 \<and> filter is_request (snd (main cfg net inp)) = []"
proof (cases rule: main_run [of inp cfg net])
  case (raised e)
  then show ?thesis by (simp add: exit_status_def)
next
  case (rejected m)
  then show ?thesis by (simp add: exit_status_def)
next
  case (accepted i s n nit)
  from accepted(1) obtain items sa props' i0 where
    items: "seq (subscript inp ''actionItem'') py_iter = Inr items"
    and found: "find_scale_action items = Inr (Some sa)"
    and props': "seq (seq (subscript sa ''targetSE'') (\<lambda>se. subscript se ''entityProperties'')) py_iter
                  = Inr props'"
    and scan: "scan_entity_properties props' (JNull, JNull, JNull) = Inr (i0, s, n)"
    and s: "s \<noteq> JNull"
    by (rule read_scale_action_accepted)
  have "items = pre @ scale_action # post" using items assms(1) by (simp add: seq_def)
  then have "sa = scale_action" using found find_scale_action_first [OF assms(2,3), of post] by simp
  then have "props' = props" using props' assms(4,5) by (simp add: seq_def)
  then have "s = JNull" using scan scan_sid [OF assms(6)] by blast
  then show ?thesis using s by simp
qed

theorem missing_service_identifier_exits_1_witness:
  "exit_status (main (example_settings 60) (example_server 200 200 (JStr ''Active''))
       (example_payload ''SCALE'' [example_item [(''service_name'', JStr ''db'')] ''a::b::m1.large''])) = 1
   \<and> filter is_request (snd (main (example_settings 60) (example_server 200 200 (JStr ''Active''))
       (example_payload ''SCALE'' [example_item [(''service_name'', JStr ''db'')] ''a::b::m1.large'']))) = []"
proof -
  let ?tgs = "[(''service_name'', JStr ''db'')]"
  let ?item = "example_item ?tgs ''a::b::m1.large''"
  have h1: "subscript (example_payload ''SCALE'' [?item]) ''actionItem'' = Inr (JArr ([] @ ?item # []))"
    by (simp add: example_payload_def)
  have h2: "\<forall>y\<in>set []. \<exists>t. subscript y ''actionType'' = Inr t \<and> t \<noteq> JStr ''SCALE''"
    by simp
  have h3: "subscript ?item ''actionType'' = Inr (JStr ''SCALE'')"
    by (simp add: example_item_def)
  have h4: "subscript ?item ''targetSE'' = Inr (example_target ?tgs)"
    by (simp add: example_item_def)
  have h5: "subscript (example_target ?tgs) ''entityProperties'' = Inr (JArr (example_properties ?tgs))"
    by (simp add: example_target_def)
  have h6: "\<forall>p\<in>set (example_properties ?tgs). \<not> has_tag p ''service_identifier''"
    by (simp add: example_properties_def has_tag_def)
  show ?thesis
    using missing_service_identifier_exits_1 [OF h1 h2 h3 h4 h5 h6] by simp
qed




text \<open>
  Claim C7. When no entity property of the matched SCALE item is the tag
  \<^verbatim>\<open>turbonomic_instance_type\<close> of the namespace \<^verbatim>\<open>VCTAGS\<close>, the parameter name in the
  body of every update request of the run is the string \<^verbatim>\<open>"instance_type"\<close>. (Without
  a \<^verbatim>\<open>service_identifier\<close> tag there is no update request; the example run, which has
  one, sends exactly one update request, with that name.)
\<close>

theorem default_instance_type_parameter:
  assumes "subscript inp ''actionItem'' = Inr (JArr (pre @ scale_action # post))"
    and "\<forall>y\<in>set pre. \<exists>t. subscript y ''actionType'' = Inr t \<and> t \<noteq> JStr ''SCALE''"
    and "subscript scale_action ''actionType'' = Inr (JStr ''SCALE'')"
    and "subscript scale_action ''targetSE'' = Inr target"
    and "subscript target ''entityProperties'' = Inr (JArr props)"
    and "\<forall>p\<in>set props. \<not> has_tag p ''turbonomic_instance_type''"
  shows "set (update_keys (snd (main cfg net inp))) \<subseteq> {JStr ''instance_type''}"
proof (cases rule: main_run [of inp cfg net])
  case (raised e)
  then show ?thesis by (simp add: update_keys_def)
next
  case (rejected m)
  then show ?thesis by (simp add: update_keys_def)
next
  case (accepted i s n nit)
  from accepted(1) obtain items sa props' i0 where
    items: "seq (subscript inp ''actionItem'') py_iter = Inr items"
    and found: "find_scale_action items = Inr (Some sa)"
    and props': "seq (seq (subscript sa ''targetSE'') (\<lambda>se. subscript se ''entityProperties'')) py_iter
                  = Inr props'"
    and scan: "scan_entity_properties props' (JNull, JNull, JNull) = Inr (i0, s, n)"
    and i: "i = (if i0 = JNull then JStr ''instance_type'' else i0)"
    by (rule read_scale_action_accepted)
  have "items = pre @ scale_action # post" using items assms(1) by (simp add: seq_def)
  then have "sa = scale_action" using found find_scale_action_first [OF assms(2,3), of post] by simp
  then have "props' = props" using props' assms(4,5) by (simp add: seq_def)
  then have "i0 = JNull" using scan scan_itp [OF assms(6)] by blast
  then have i_def: "i = JStr ''instance_type''" using i by simp
  show ?thesis
  proof (rule accepted_run [of cfg net i s n nit], goal_cases)
    case (1 r tr)
    then show ?case using accepted(2) i_def by simp
  next
    case (2 tok ten u0 f0 x0 u1 a1 x1 u2 a2 x2)
    let ?tr0 = "[Request (Identity_Token_Post u0 f0) (Inr x0), Request (Tenant_Get u1 a1) (Inr x1),
            Log INFO (Update_Service_Instance n s nit), Request (Update_Post u2 a2 i nit) (Inr x2)]"
    have "filter update_call (snd (main cfg net inp)) = filter update_call ?tr0"
      using accepted(2) 2(1) by (simp add: wait_keeps)
    then have "update_keys (snd (main cfg net inp)) = update_keys (filter update_call ?tr0)"
      using update_keys_filter [of "snd (main cfg net inp)"] by simp
    then show ?case using i_def by (simp add: update_keys_def)
  qed
qed

theorem default_instance_type_parameter_witness:
  "set (update_keys (snd (main (example_settings 60) (example_server 200 200 (JStr ''Active''))
      example_input))) \<subseteq> {JStr ''instance_type''}
   \<and> update_keys (snd (main (example_settings 60) (example_server 200 200 (JStr ''Active''))
      example_input)) = [JStr ''instance_type'']"
proof -
  let ?tgs = "[(''service_identifier'', JStr ''sid1'')]"
  let ?item = "example_item ?tgs ''a::b::m1.large''"
  have h1: "subscript example_input ''actionItem'' = Inr (JArr ([] @ ?item # []))"
    by (simp add: example_input_def example_payload_def)
  have h2: "\<forall>y\<in>set []. \<exists>t. subscript y ''actionType'' = Inr t \<and> t \<noteq> JStr ''SCALE''"
    by simp
  have h3: "subscript ?item ''actionType'' = Inr (JStr ''SCALE'')"
    by (simp add: example_item_def)
  have h4: "subscript ?item ''targetSE'' = Inr (example_target ?tgs)"
    by (simp add: example_item_def)
  have h5: "subscript (example_target ?tgs) ''entityProperties'' = Inr (JArr (example_properties ?tgs))"
    by (simp add: example_target_def)
  have h6: "\<forall>p\<in>set (example_properties ?tgs). \<not> has_tag p ''turbonomic_instance_type''"
    by (simp add: example_properties_def has_tag_def)
  have run: "update_keys (snd (main (example_settings 60) (example_server 200 200 (JStr ''Active''))
      example_input)) = [JStr ''instance_type'']"
    by code_simp
  show ?thesis
    using default_instance_type_parameter [OF h1 h2 h3 h4 h5 h6] run by simp
qed

text \<open>
  Claim C8. If the update call returns 200 and the first request for the status is
  answered with \<^verbatim>\<open>"Active"\<close> (status 200, a JSON body whose \<^verbatim>\<open>Status\<close> is
  \<^verbatim>\<open>"Active"\<close>), then \<^verbatim>\<open>main\<close> returns 0, the body of the wait loop is never
  entered, and the only sleep of the run is the one of 30 seconds.
\<close>

theorem active_at_once_exits_0:
  assumes "Request (Update_Post u a k v) (Inr x) \<in> set (snd (main cfg net inp))"
    and "status_code x = 200"
    and "List.find details_call (snd (main cfg net inp)) = Some (Request (Details_Get u' a') (Inr y))"
    and "status_code y = 200"
    and "json_body y = Some d"
    and "subscript d ''Status'' = Inr (JStr ACTIVE)"
  shows "fst (main cfg net inp) = Inr 0
       \<and> exit_status (main cfg net inp) = 0
       \<and> poll_rounds (snd (main cfg net inp)) = 0
       \<and> filter is_sleep (snd (main cfg net inp)) = [Sleep 30]"
proof (cases rule: main_run [of inp cfg net])
  case (raised e)
  then show ?thesis using assms by simp
next
  case (rejected m)
  then show ?thesis using assms by simp
next
  case (accepted i s n nit)
  show ?thesis
  proof (rule accepted_run [of cfg net i s n nit], goal_cases)
    case (1 r tr)
    then show ?case using accepted(2) assms by auto
  next
    case (2 tok ten u0 f0 x0 u1 a1 x1 u2 a2 x2)
    let ?tr0 = "[Request (Identity_Token_Post u0 f0) (Inr x0), Request (Tenant_Get u1 a1) (Inr x1),
            Log INFO (Update_Service_Instance n s nit), Request (Update_Post u2 a2 i nit) (Inr x2)]"
    have run: "main cfg net inp = wait_for_update cfg net tok ten s n ?tr0"
      using accepted(2) 2(1) by simp
    have d: "d \<noteq> JNull" using assms(6) by auto
    show ?case
    proof (rule get_service_instance_status_run [where tok = tok and ten = ten and cfg = cfg
          and net = net and s = s and tr = ?tr0, OF 2(4) 2(5)], goal_cases)
      case (1 e ev)
      then have "main cfg net inp = (Inl e, ?tr0 @ ev)"
        using run by (simp add: wait_for_update_def and_then_def)
      then show ?case using assms(3) 1(2) by auto
    next
      case (2 ua aa xa)
      obtain rest where "snd (main cfg net inp) = (?tr0 @ [Request (Details_Get ua aa) (Inr xa),
            Log ERROR (Error_Getting_Details (status_code xa) s),
            Log ERROR (Response_Text (body_text xa))]) @ rest"
        using wait_extends [OF 2(1), of n] run by auto
      then have "xa = y" using assms(3) by simp
      then show ?case using 2(2) assms(4) by simp
    next
      case (3 ua aa xa)
      obtain rest where "snd (main cfg net inp) = (?tr0 @ [Request (Details_Get ua aa) (Inr xa)]) @ rest"
        using wait_extends [OF 3(1), of n] run by auto
      then have "xa = y" using assms(3) by simp
      then have "get_service_instance_status cfg net tok ten s ?tr0
          = (Inr (JStr ACTIVE), ?tr0 @ [Request (Details_Get ua aa) (Inr y)])"
        using 3(1) assms(5,6) d by simp
      then have "main cfg net inp = (Inr 0, (?tr0 @ [Request (Details_Get ua aa) (Inr y)])
          @ [Sleep 30, Log INFO (Updated_Successfully n s)])"
        using run by (simp only: wait_active)
      then show ?case by (simp add: exit_status_def poll_rounds_def)
    qed
  qed
qed

theorem active_at_once_exits_0_witness:
  "fst (main (example_settings 60) (example_server 200 200 (JStr ''Active'')) example_input) = Inr 0
   \<and> exit_status (main (example_settings 60) (example_server 200 200 (JStr ''Active'')) example_input) = 0
   \<and> poll_rounds (snd (main (example_settings 60) (example_server 200 200 (JStr ''Active''))
        example_input)) = 0
   \<and> filter is_sleep (snd (main (example_settings 60) (example_server 200 200 (JStr ''Active''))
        example_input)) = [Sleep 30]"
proof -
  have h1: "Request (Update_Post
       ''https://cam/cam/composer/api/v1/ServiceInstances/sid1/update?tenantId=ten&ace_orgGuid=all''
       ''Bearer tok'' (JStr ''instance_type'') ''m1.large'') (Inr (response 200 JNull))
     \<in> set (snd (main (example_settings 60) (example_server 200 200 (JStr ''Active'')) example_input))"
    by code_simp
  have h2: "status_code (response 200 JNull) = 200"
    by (simp add: response_def)
  have h3: "List.find details_call
      (snd (main (example_settings 60) (example_server 200 200 (JStr ''Active'')) example_input))
     = Some (Request (Details_Get
         ''https://cam/cam/composer/api/v1/ServiceInstances/sid1?tenantId=ten&ace_orgGuid=all''
         ''Bearer tok'') (Inr (response 200 (JObj [(''Status'', JStr ''Active'')]))))"
    by code_simp
  have h4: "status_code (response 200 (JObj [(''Status'', JStr ''Active'')])) = 200"
    by (simp add: response_def)
  have h5: "json_body (response 200 (JObj [(''Status'', JStr ''Active'')]))
      = Some (JObj [(''Status'', JStr ''Active'')])"
    by (simp add: response_def)
  have h6: "subscript (JObj [(''Status'', JStr ''Active'')]) ''Status'' = Inr (JStr ACTIVE)"
    by (simp add: ACTIVE_def)
  show ?thesis
    by (rule active_at_once_exits_0 [OF h1 h2 h3 h4 h5 h6])
qed

text \<open>
  Claim C9. When the payload passes every check (the action is a SCALE, the matched item
  is on a virtual machine, the scan of its tags ends with a service instance id) but
  \<^verbatim>\<open>newSE.id\<close> has fewer than three pieces between \<^verbatim>\<open>::\<close>, line 214 raises
  \<^verbatim>\<open>IndexError\<close>: \<^verbatim>\<open>main\<close> does not return, and the trace of the run is empty, so the
  failure comes before any network call.
\<close>

theorem short_new_id_raises_IndexError:
  assumes "subscript inp ''actionType'' = Inr (JStr ''SCALE'')"
    and "subscript inp ''actionItem'' = Inr (JArr (pre @ scale_action # post))"
    and "\<forall>y\<in>set pre. \<exists>t. subscript y ''actionType'' = Inr t \<and> t \<noteq> JStr ''SCALE''"
    and "subscript scale_action ''actionType'' = Inr (JStr ''SCALE'')"
    and "subscript scale_action ''targetSE'' = Inr target"
    and "subscript target ''entityType'' = Inr (JStr ''VIRTUAL_MACHINE'')"
    and "subscript target ''entityProperties'' = Inr (JArr props)"
    and "scan_entity_properties props (JNull, JNull, JNull)
           = Inr (instance_type_parameter, service_instance_id, service_instance_name)"
    and "service_instance_id \<noteq> JNull"
    and "subscript scale_action ''newSE'' = Inr new_se"
    and "subscript new_se ''id'' = Inr (JStr new_id)"
    and "length (split_colons [] new_id) < 3"
  shows "main cfg net inp = (Inl IndexError, [])"
proof -
  have "find_scale_action (pre @ scale_action # post) = Inr (Some scale_action)"
    using assms(3,4) by (rule find_scale_action_first)
  moreover have "py_get scale_action ''targetSE'' (JObj []) = Inr target"
    using assms(5) by (rule py_get_subscript)
  moreover have "py_get target ''entityType'' JNull = Inr (JStr ''VIRTUAL_MACHINE'')"
    using assms(6) by (rule py_get_subscript)
  moreover have "third_segment (JStr new_id) = Inl IndexError"
    using assms(12) by (simp add: Let_def)
  ultimately have "read_scale_action inp [] = (Inl IndexError, [])"
    using assms
    by (simp add: read_scale_action_def and_then_def lift_def ret_def raise_def seq_def)
  then show ?thesis by (simp add: main_def and_then_def)
qed

theorem short_new_id_raises_IndexError_witness:
  "main (example_settings 60) (example_server 200 200 (JStr ''Active''))
       (example_payload ''SCALE'' [example_item [(''service_identifier'', JStr ''sid1'')] ''a::b''])
     = (Inl IndexError, [])"
proof -
  let ?tgs = "[(''service_identifier'', JStr ''sid1'')]"
  let ?item = "example_item ?tgs ''a::b''"
  let ?inp = "example_payload ''SCALE'' [?item]"
  have h0: "subscript ?inp ''actionType'' = Inr (JStr ''SCALE'')"
    by (simp add: example_payload_def)
  have h1: "subscript ?inp ''actionItem'' = Inr (JArr ([] @ ?item # []))"
    by (simp add: example_payload_def)
  have h2: "\<forall>y\<in>set []. \<exists>t. subscript y ''actionType'' = Inr t \<and> t \<noteq> JStr ''SCALE''"
    by simp
  have h3: "subscript ?item ''actionType'' = Inr (JStr ''SCALE'')"
    by (simp add: example_item_def)
  have h4: "subscript ?item ''targetSE'' = Inr (example_target ?tgs)"
    by (simp add: example_item_def)
  have h5: "subscript (example_target ?tgs) ''entityType'' = Inr (JStr ''VIRTUAL_MACHINE'')"
    by (simp add: example_target_def)
  have h6: "subscript (example_target ?tgs) ''entityProperties'' = Inr (JArr (example_properties ?tgs))"
    by (simp add: example_target_def)
  have h7: "scan_entity_properties (example_properties ?tgs) (JNull, JNull, JNull)
      = Inr (JNull, JStr ''sid1'', JNull)"
    by code_simp
  have h8: "JStr ''sid1'' \<noteq> JNull" by simp
  have h9: "subscript ?item ''newSE'' = Inr (JObj [(''id'', JStr ''a::b'')])"
    by (simp add: example_item_def)
  have h10: "subscript (JObj [(''id'', JStr ''a::b'')]) ''id'' = Inr (JStr ''a::b'')"
    by simp
  have h11: "length (split_colons [] ''a::b'') < 3"
    by simp
  show ?thesis
    by (rule short_new_id_raises_IndexError [OF h0 h1 h2 h3 h4 h5 h6 h7 h8 h9 h10 h11])
qed

text \<open>
  The bound of the wait loop is reached: with a timeout of 45 seconds and a status that
  stays in progress, the body runs twice.
\<close>

lemma poll_rounds_reached:
  "poll_rounds (snd (main (example_settings 45) (example_server 200 200 (JStr ''In Progress''))
      example_input)) = 2"
  by code_simp

end
